theory Spec2Isabelle
  imports Main
begin

section \<open>The Change model of lib/models/change.js\<close>

subsection \<open>Values and records\<close>

text \<open>
  The properties \<open>rev\<close> and \<open>prev\<close> are declared \<open>{type: String}\<close>; the code also
  stores \<open>null\<close> in them (\<open>cb(null, null)\<close> in \<open>currentRevision\<close>) and leaves them
  \<open>undefined\<close> when they were never given. The three kinds of value are kept apart
  because the code compares them with \<open>===\<close>: on this datatype HOL equality is
  JavaScript's strict equality (strings by content, \<open>null === null\<close>,
  \<open>undefined === undefined\<close>, and \<open>null !== undefined\<close>).
\<close>

datatype jsval = Undefined | Null | Str string

text \<open>Truthiness, as \<open>&&\<close> and \<open>!\<close> test it: the empty string is falsy.\<close>

fun truthy :: "jsval \<Rightarrow> bool" where
  "truthy Undefined = False"
| "truthy Null = False"
| "truthy (Str s) = (s \<noteq> [])"

text \<open>
  A change record. The field \<open>rev\<close> is named \<open>rev'\<close> (\<open>rev\<close> is list reversal
  in HOL). \<open>checkpoint\<close> is a Number or absent; checkpoints are integer epochs.
  The property \<open>id\<close> is not a field: \<open>Change.setup\<close> installs a getter for it.
\<close>

record change =
  rev' :: jsval
  prev :: jsval
  checkpoint :: "int option"
  modelName :: string
  modelId :: string

text \<open>\<open>Change.UPDATE\<close>, \<open>Change.CREATE\<close>, \<open>Change.DELETE\<close>, \<open>Change.UNKNOWN\<close>.\<close>

datatype change_type = UPDATE | CREATE | DELETE | UNKNOWN

text \<open>
  Errors: a \<open>StoreError\<close> is what a store or an entity accessor hands to a callback as
  \<open>err\<close>; \<open>TypeError\<close> is the exception JavaScript throws on reading a property of
  \<open>undefined\<close>.
\<close>

datatype error = StoreError string | TypeError

subsection \<open>Hashing and identity\<close>

text \<open>
  \<open>Array.prototype.join\<close> on an array of strings.
\<close>

fun join :: "string \<Rightarrow> string list \<Rightarrow> string" where
  "join sep [] = []"
| "join sep [x] = x"
| "join sep (x # y # ys) = x @ sep @ join sep (y # ys)"

text \<open>
  \<open>Change.hash\<close> feeds the string to \<open>crypto.createHash(...)\<close>, which is not part of
  this file: the digest function is the parameter \<open>H\<close>.
  \<open>Change.idForModel = function(modelName, modelId) { return this.hash([modelName, modelId].join('-')); }\<close>
\<close>

definition idForModel :: "(string \<Rightarrow> string) \<Rightarrow> string \<Rightarrow> string \<Rightarrow> string" where
  "idForModel H mn mid = H (join ''-'' [mn, mid])"

text \<open>
  The getter of \<open>id\<close>:
  \<open>var hasModel = this.modelName && this.modelId; if(!hasModel) return null;\<close>
\<close>

definition change_id :: "(string \<Rightarrow> string) \<Rightarrow> change \<Rightarrow> jsval" where
  "change_id H c =
     (if \<not> (truthy (Str (modelName c)) \<and> truthy (Str (modelId c))) then Null
      else Str (idForModel H (modelName c) (modelId c)))"

subsection \<open>The pure predicates\<close>

text \<open>\<open>Change.prototype.type\<close>, the four tests in the order of the source.\<close>

definition type' :: "change \<Rightarrow> change_type" where
  "type' this =
     (if truthy (rev' this) \<and> truthy (prev this) then UPDATE
      else if truthy (rev' this) \<and> \<not> truthy (prev this) then CREATE
      else if \<not> truthy (rev' this) \<and> truthy (prev this) then DELETE
      else UNKNOWN)"

text \<open>\<open>Change.prototype.equals = function(change) { return change.rev === this.rev; }\<close>\<close>

definition equals :: "change \<Rightarrow> change \<Rightarrow> bool" where
  "equals this change = (rev' change = rev' this)"

text \<open>\<open>Change.prototype.isBasedOn = function(change) { return this.prev === change.rev; }\<close>\<close>

definition isBasedOn :: "change \<Rightarrow> change \<Rightarrow> bool" where
  "isBasedOn this change = (prev this = rev' change)"

subsection \<open>The external collaborators\<close>

text \<open>
  Everything \<open>change.js\<close> calls but does not define is a field of the environment:
  the digest, \<open>CJSON.stringify\<close>, the keyed store of change records
  (\<open>findById\<close>, \<open>save\<close>) and the registry \<open>modelBuilder.models\<close>, which maps a
  model name to that model's \<open>findById\<close>. \<open>'s\<close> is the state of the stores,
  \<open>'e\<close> the type of entities. An asynchronous call that ends in \<open>cb(err)\<close> returns
  \<open>Inl err\<close>, one that ends in \<open>cb(null, v)\<close> returns \<open>Inr v\<close>.
\<close>

record ('s, 'e) env =
  hash :: "string \<Rightarrow> string"
  stringify :: "'e \<Rightarrow> string"
  findById :: "'s \<Rightarrow> string \<Rightarrow> error + change option"
  save :: "'s \<Rightarrow> change \<Rightarrow> (error + change) \<times> 's"
  models :: "string \<Rightarrow> ('s \<Rightarrow> string \<Rightarrow> error + 'e option) option"

text \<open>
  \<open>Change.handleError(err, cb)\<close>. \<open>change.js\<close> creates the class \<open>Change\<close> and calls
  \<open>Change.handleError\<close> in \<open>track\<close>, \<open>rectify\<close> and \<open>currentRevision\<close>, but gives
  the class no such property: the call is a call of \<open>undefined\<close> and throws a
  TypeError. The error \<open>err\<close> is dropped and \<open>cb\<close> is never called.
\<close>

definition handleError :: "error \<Rightarrow> error + 'a" where
  "handleError err = Inl TypeError"

subsection \<open>Rectification\<close>

text \<open>\<open>Change.revisionForInst = function(inst) { return this.hash(CJSON.stringify(inst)); }\<close>\<close>

definition revisionForInst :: "('s, 'e) env \<Rightarrow> 'e \<Rightarrow> string" where
  "revisionForInst E inst = hash E (stringify E inst)"

text \<open>\<open>Change.prototype.getModelCtor\<close>: \<open>modelBuilder.models[this.modelName]\<close>.\<close>

definition getModelCtor :: "('s, 'e) env \<Rightarrow> change \<Rightarrow> ('s \<Rightarrow> string \<Rightarrow> error + 'e option) option" where
  "getModelCtor E this = models E (modelName this)"

text \<open>
  \<open>Change.prototype.currentRevision\<close>. A model name that is not registered makes
  \<open>model\<close> undefined and \<open>model.findById\<close> throw.
\<close>

definition currentRevision :: "('s, 'e) env \<Rightarrow> 's \<Rightarrow> change \<Rightarrow> error + jsval" where
  "currentRevision E s this =
     (case getModelCtor E this of
        None \<Rightarrow> Inl TypeError
      | Some model \<Rightarrow>
          (case model s (modelId this) of
             Inl err \<Rightarrow> handleError err
           | Inr (Some inst) \<Rightarrow> Inr (Str (revisionForInst E inst))
           | Inr None \<Rightarrow> Inr Null))"

text \<open>
  \<open>Change.prototype.rectify\<close>: \<open>this.prev = this.rev\<close>, then the current revision,
  then \<open>change.rev = rev; change.save(cb)\<close>.
\<close>

definition rectify :: "('s, 'e) env \<Rightarrow> 's \<Rightarrow> change \<Rightarrow> (error + change) \<times> 's" where
  "rectify E s this =
     (let change = this\<lparr>prev := rev' this\<rparr> in
      case currentRevision E s change of
        Inl err \<Rightarrow> (handleError err, s)
      | Inr r \<Rightarrow> save E s (change\<lparr>rev' := r\<rparr>))"

subsection \<open>Tracking\<close>

text \<open>
  \<open>Change.findOrCreate\<close>. \<open>new Change({id: id, modelName: modelName, modelId: modelId})\<close>
  gives no \<open>rev\<close>, \<open>prev\<close> or \<open>checkpoint\<close>.
\<close>

definition findOrCreate :: "('s, 'e) env \<Rightarrow> 's \<Rightarrow> string \<Rightarrow> string \<Rightarrow> (error + change) \<times> 's" where
  "findOrCreate E s mn mid =
     (let id = idForModel (hash E) mn mid in
      case findById E s id of
        Inl err \<Rightarrow> (Inl err, s)
      | Inr (Some change) \<Rightarrow> (Inr change, s)
      | Inr None \<Rightarrow>
          save E s \<lparr>rev' = Undefined, prev = Undefined, checkpoint = None,
                    modelName = mn, modelId = mid\<rparr>)"

text \<open>
  One task of \<open>Change.track\<close>:
  \<open>Change.findOrCreate(modelName, id, function(err, change) {
     if(err) return Change.handleError(err, cb); change.rectify(cb); })\<close>
\<close>

definition track_task :: "('s, 'e) env \<Rightarrow> string \<Rightarrow> string \<Rightarrow> 's \<Rightarrow> (error + change) \<times> 's" where
  "track_task E mn mid s =
     (case findOrCreate E s mn mid of
        (Inl err, s') \<Rightarrow> (handleError err, s')
      | (Inr change, s') \<Rightarrow> rectify E s' change)"

text \<open>
  Modelled from the spec: \<open>async.parallel\<close> (the \<open>async\<close> package is not part of
  \<open>change.js\<close>). Sections 4.2, 5 and 7 of the specification: every task is started
  and none is cancelled when a sibling fails (\<open>run_tasks\<close>, here in list order);
  the batch succeeds only if every task succeeds, the first failure is the outcome
  of the batch, and no list of results accompanies it (\<open>collect\<close>). A task that
  throws has the exception as its outcome: the callback of the batch does not
  receive the error the task was handling.
\<close>

fun run_tasks :: "('s \<Rightarrow> (error + 'a) \<times> 's) list \<Rightarrow> 's \<Rightarrow> (error + 'a) list \<times> 's" where
  "run_tasks [] s = ([], s)"
| "run_tasks (t # ts) s =
     (case t s of (r, s') \<Rightarrow>
        (case run_tasks ts s' of (rs, s'') \<Rightarrow> (r # rs, s'')))"

fun collect :: "(error + 'a) list \<Rightarrow> error + 'a list" where
  "collect [] = Inr []"
| "collect (Inl err # rs) = Inl err"
| "collect (Inr v # rs) = (case collect rs of Inl err \<Rightarrow> Inl err | Inr vs \<Rightarrow> Inr (v # vs))"

definition parallel :: "('s \<Rightarrow> (error + 'a) \<times> 's) list \<Rightarrow> 's \<Rightarrow> (error + 'a list) \<times> 's" where
  "parallel tasks s = (case run_tasks tasks s of (rs, s') \<Rightarrow> (collect rs, s'))"

text \<open>
  \<open>Change.track\<close>: one task per element of \<open>modelIds\<close>, then
  \<open>async.parallel(tasks, callback)\<close>.
\<close>

definition track :: "('s, 'e) env \<Rightarrow> string \<Rightarrow> string list \<Rightarrow> 's \<Rightarrow> (error + change list) \<times> 's" where
  "track E mn modelIds s = parallel (map (track_task E mn) modelIds) s"

subsection \<open>Diff\<close>

text \<open>
  The filter \<open>Change.diff\<close> hands to \<open>this.find\<close>:
  \<open>{where: {modelName: modelName, modelId: {inq: modelIds}, checkpoint: {gt: since}}}\<close>.
\<close>

record where_filter =
  w_modelName :: string
  w_modelId_inq :: "string list"
  w_checkpoint_gt :: int

record diff_result =
  deltas :: "change list"
  conflicts :: "change list"

text \<open>
  The first loop of \<open>Change.diff\<close>:
  \<open>modelIds.push(ch.modelId); remoteChangeIndex[ch.modelId] = new Change(ch);\<close>
  \<open>new Change(ch)\<close> wraps the data of \<open>ch\<close> and is the identity on records.
\<close>

definition index_step :: "string list \<times> (string \<rightharpoonup> change) \<Rightarrow> change \<Rightarrow> string list \<times> (string \<rightharpoonup> change)" where
  "index_step acc ch = (fst acc @ [modelId ch], (snd acc)(modelId ch \<mapsto> ch))"

definition index_remote :: "change list \<Rightarrow> string list \<times> (string \<rightharpoonup> change)" where
  "index_remote remoteChanges = foldl index_step ([], Map.empty) remoteChanges"

text \<open>
  \<open>since = Number(since) || 0\<close>. \<open>since\<close> is a Number or missing (\<open>None\<close>);
  \<open>Number(undefined)\<close> is NaN and \<open>Number(null)\<close> is 0, both falsy, as is 0 itself.
\<close>

definition normalize_since :: "int option \<Rightarrow> int" where
  "normalize_since since = (case since of None \<Rightarrow> 0 | Some n \<Rightarrow> if n \<noteq> 0 then n else 0)"

text \<open>
  The second loop, over \<open>localChanges\<close>. When the index has no entry for the local
  record's \<open>modelId\<close>, \<open>remoteChange\<close> is undefined and
  \<open>localChange.equals(remoteChange)\<close> throws on \<open>change.rev\<close>.
\<close>

fun diff_loop :: "(string \<rightharpoonup> change) \<Rightarrow> change list \<Rightarrow> diff_result \<Rightarrow> error + diff_result" where
  "diff_loop remoteChangeIndex [] acc = Inr acc"
| "diff_loop remoteChangeIndex (localChange # ls) acc =
     (case remoteChangeIndex (modelId localChange) of
        None \<Rightarrow> Inl TypeError
      | Some remoteChange \<Rightarrow>
          if \<not> equals localChange remoteChange then
            if isBasedOn remoteChange localChange
            then diff_loop remoteChangeIndex ls (acc\<lparr>deltas := deltas acc @ [remoteChange]\<rparr>)
            else diff_loop remoteChangeIndex ls (acc\<lparr>conflicts := conflicts acc @ [localChange]\<rparr>)
          else diff_loop remoteChangeIndex ls acc)"

text \<open>
  \<open>Change.diff\<close>. The query \<open>this.find\<close> of the store is the parameter \<open>find_changes\<close>.
\<close>

definition diff :: "string \<Rightarrow> int option \<Rightarrow> change list \<Rightarrow> (where_filter \<Rightarrow> error + change list) \<Rightarrow> error + diff_result" where
  "diff mn since remoteChanges find_changes =
     (case index_remote remoteChanges of (modelIds, remoteChangeIndex) \<Rightarrow>
        (case find_changes \<lparr>w_modelName = mn, w_modelId_inq = modelIds,
                             w_checkpoint_gt = normalize_since since\<rparr> of
           Inl err \<Rightarrow> Inl err
         | Inr localChanges \<Rightarrow>
             diff_loop remoteChangeIndex localChanges \<lparr>deltas = [], conflicts = []\<rparr>))"

text \<open>
  Modelled from the spec: the store's \<open>find\<close> is not part of \<open>change.js\<close>. Section 6
  of the specification: \<open>find(filter: {modelName equals, modelId in set, checkpoint
  greaterThan N})\<close>; a record without a checkpoint is greater than nothing. The store
  holds the list \<open>store\<close> of change records and answers in its order.
\<close>

definition matches :: "where_filter \<Rightarrow> change \<Rightarrow> bool" where
  "matches w c =
     (modelName c = w_modelName w \<and> modelId c \<in> set (w_modelId_inq w) \<and>
      (case checkpoint c of None \<Rightarrow> False | Some k \<Rightarrow> k > w_checkpoint_gt w))"

definition store_find :: "change list \<Rightarrow> where_filter \<Rightarrow> error + change list" where
  "store_find store w = Inr (filter (matches w) store)"

subsection \<open>Specification functions\<close>

text \<open>
  What the index is meant to hold for an id, in the words of the specification's
  last-write-wins: the last record of \<open>remoteChanges\<close> with that \<open>modelId\<close>.
\<close>

definition remote_for :: "change list \<Rightarrow> string \<Rightarrow> change option" where
  "remote_for remoteChanges mid =
     (case filter (\<lambda>ch. modelId ch = mid) remoteChanges of
        [] \<Rightarrow> None
      | x # xs \<Rightarrow> Some (last (x # xs)))"

text \<open>
  The classification of one local record in the words of the specification: equal
  revisions are skipped; unequal ones are a delta, reported as the remote record, when
  the remote's \<open>prev\<close> is the local's \<open>rev\<close>, and a conflict, reported as the
  local record, otherwise.
\<close>

definition delta_of :: "change list \<Rightarrow> change \<Rightarrow> change option" where
  "delta_of rcs l =
     (case remote_for rcs (modelId l) of
        None \<Rightarrow> None
      | Some r \<Rightarrow> if rev' r \<noteq> rev' l \<and> prev r = rev' l then Some r else None)"

definition is_conflict :: "change list \<Rightarrow> change \<Rightarrow> bool" where
  "is_conflict rcs l =
     (case remote_for rcs (modelId l) of
        None \<Rightarrow> False
      | Some r \<Rightarrow> rev' r \<noteq> rev' l \<and> prev r \<noteq> rev' l)"

text \<open>
  The last remote change of the list with a given \<open>modelId\<close>; it is only read for
  ids that occur in the list.
\<close>

definition last_duplicate :: "change list \<Rightarrow> string \<Rightarrow> change" where
  "last_duplicate remoteChanges mid = last (filter (\<lambda>ch. modelId ch = mid) remoteChanges)"

subsection \<open>An example environment\<close>

text \<open>
  A small world to run the functions in: the state is the list of saved change
  records, entities are strings, the digest prefixes \<open>#\<close>. The model \<open>Todo\<close> is
  registered; its accessor fails for the id \<open>2\<close>, finds nothing for the id \<open>3\<close> and
  finds the entity \<open>{}\<close> for every other id.
\<close>

definition example_env :: "(change list, string) env" where
  "example_env =
     \<lparr>hash = (\<lambda>str. ''#'' @ str),
      stringify = (\<lambda>inst. inst),
      findById = (\<lambda>s id. Inr (List.find (\<lambda>c. ''#'' @ modelName c @ ''-'' @ modelId c = id) s)),
      save = (\<lambda>s c. (Inr c, c # filter (\<lambda>d. (modelName d, modelId d) \<noteq> (modelName c, modelId c)) s)),
      models = (\<lambda>mn. if mn = ''Todo''
                 then Some (\<lambda>s mid. if mid = ''2'' then Inl (StoreError ''down'')
                                      else if mid = ''3'' then Inr None
                                      else Inr (Some ''{}''))
                 else None)\<rparr>"

definition example_change :: "string \<Rightarrow> jsval \<Rightarrow> jsval \<Rightarrow> int option \<Rightarrow> change" where
  "example_change mid r p k =
     \<lparr>rev' = r, prev = p, checkpoint = k, modelName = ''Todo'', modelId = mid\<rparr>"

section \<open>Auxiliary facts\<close>

subsection \<open>Joining with a separator\<close>

lemma dash_split:
  assumes "CHR ''-'' \<notin> set a" "CHR ''-'' \<notin> set a'" "a @ ''-'' @ b = a' @ ''-'' @ b'"
  shows "a = a' \<and> b = b'"
proof -
  have "takeWhile (\<lambda>x. x \<noteq> CHR ''-'') (a @ ''-'' @ b) = a"
    using assms(1) by (auto simp: takeWhile_tail)
  moreover have "takeWhile (\<lambda>x. x \<noteq> CHR ''-'') (a' @ ''-'' @ b') = a'"
    using assms(2) by (auto simp: takeWhile_tail)
  ultimately have "a = a'" using assms(3) by simp
  with assms(3) show ?thesis by simp
qed

subsection \<open>The remote index\<close>

lemma remote_for_Cons:
  "remote_for (x # xs) m =
     (case remote_for xs m of Some c \<Rightarrow> Some c
      | None \<Rightarrow> if modelId x = m then Some x else None)"
  by (simp add: remote_for_def split: list.splits)

lemma remote_for_last:
  "remote_for rcs m =
     (if filter (\<lambda>ch. modelId ch = m) rcs = [] then None
      else Some (last (filter (\<lambda>ch. modelId ch = m) rcs)))"
  by (simp add: remote_for_def split: list.splits)

lemma foldl_index_step_fst:
  "fst (foldl index_step acc rcs) = fst acc @ map modelId rcs"
  by (induction rcs arbitrary: acc) (simp_all add: index_step_def)

lemma foldl_index_step_snd:
  "snd (foldl index_step acc rcs) m =
     (case remote_for rcs m of Some c \<Rightarrow> Some c | None \<Rightarrow> snd acc m)"
proof (induction rcs arbitrary: acc)
  case Nil
  show ?case by (simp add: remote_for_def)
next
  case (Cons x xs)
  have "snd (foldl index_step acc (x # xs)) m =
        (case remote_for xs m of Some c \<Rightarrow> Some c | None \<Rightarrow> snd (index_step acc x) m)"
    using Cons.IH[of "index_step acc x"] by simp
  also have "snd (index_step acc x) m = (if modelId x = m then Some x else snd acc m)"
    by (simp add: index_step_def)
  finally show ?case
    by (simp add: remote_for_Cons split: option.splits)
qed

lemma index_remote_ids: "fst (index_remote rcs) = map modelId rcs"
  by (simp add: index_remote_def foldl_index_step_fst)

lemma index_remote_lookup: "snd (index_remote rcs) = remote_for rcs"
  by (rule ext) (simp add: index_remote_def foldl_index_step_snd split: option.splits)

lemma remote_for_modelId: "remote_for rcs m = Some r \<Longrightarrow> modelId r = m \<and> r \<in> set rcs"
proof -
  assume a: "remote_for rcs m = Some r"
  let ?f = "filter (\<lambda>ch. modelId ch = m) rcs"
  from a have ne: "?f \<noteq> []" and r: "r = last ?f"
    by (auto simp: remote_for_def split: list.splits)
  from ne have "last ?f \<in> set ?f" by (rule last_in_set)
  with r show ?thesis by simp
qed

lemma remote_for_None: "(remote_for rcs m = None) = (m \<notin> modelId ` set rcs)"
proof -
  have "(remote_for rcs m = None) = (filter (\<lambda>ch. modelId ch = m) rcs = [])"
    by (simp add: remote_for_def split: list.splits)
  also have "\<dots> = (m \<notin> modelId ` set rcs)"
    by (auto simp: filter_empty_conv)
  finally show ?thesis .
qed

lemma remote_for_overwritten:
  assumes "modelId c = modelId c'" "modelId c \<in> modelId ` set ys"
  shows "remote_for (xs @ c # ys) = remote_for (xs @ c' # ys)"
proof (rule ext)
  fix m
  show "remote_for (xs @ c # ys) m = remote_for (xs @ c' # ys) m"
  proof (cases "m = modelId c")
    case True
    with assms(2) have "filter (\<lambda>ch. modelId ch = m) ys \<noteq> []"
      by (auto simp: filter_empty_conv)
    then show ?thesis using True assms(1)
      by (simp add: remote_for_last)
  next
    case False
    then show ?thesis using assms(1) by (simp add: remote_for_last)
  qed
qed

subsection \<open>The loop over the local records\<close>

lemma diff_loop_result:
  assumes "\<forall>l \<in> set ls. modelId l \<in> modelId ` set rcs"
  shows "diff_loop (remote_for rcs) ls acc =
           Inr \<lparr>deltas = deltas acc @ List.map_filter (delta_of rcs) ls,
                conflicts = conflicts acc @ filter (is_conflict rcs) ls\<rparr>"
  using assms
proof (induction ls arbitrary: acc)
  case Nil
  show ?case by simp
next
  case (Cons l ls)
  from Cons.prems have "remote_for rcs (modelId l) \<noteq> None"
    by (simp add: remote_for_None)
  then obtain r where r: "remote_for rcs (modelId l) = Some r" by blast
  from Cons.prems have rest: "\<forall>l \<in> set ls. modelId l \<in> modelId ` set rcs" by simp
  show ?case
    using r Cons.IH[OF rest]
    by (simp add: delta_of_def is_conflict_def equals_def isBasedOn_def)
qed

lemma diff_unfold:
  "diff mn since rcs find_changes =
     (case find_changes \<lparr>w_modelName = mn, w_modelId_inq = map modelId rcs,
                          w_checkpoint_gt = normalize_since since\<rparr> of
        Inl err \<Rightarrow> Inl err
      | Inr localChanges \<Rightarrow> diff_loop (remote_for rcs) localChanges \<lparr>deltas = [], conflicts = []\<rparr>)"
proof -
  have "index_remote rcs = (map modelId rcs, remote_for rcs)"
    by (simp add: prod_eq_iff index_remote_ids index_remote_lookup)
  then show ?thesis by (simp add: diff_def)
qed

lemma store_find_ids:
  "\<forall>l \<in> set (filter (matches \<lparr>w_modelName = mn, w_modelId_inq = map modelId rcs,
       w_checkpoint_gt = k\<rparr>) store). modelId l \<in> modelId ` set rcs"
  by (simp add: matches_def)

lemma diff_store:
  "diff mn since rcs (store_find store) =
     Inr \<lparr>deltas = List.map_filter (delta_of rcs)
            (filter (matches \<lparr>w_modelName = mn, w_modelId_inq = map modelId rcs,
                              w_checkpoint_gt = normalize_since since\<rparr>) store),
          conflicts = filter (is_conflict rcs)
            (filter (matches \<lparr>w_modelName = mn, w_modelId_inq = map modelId rcs,
                              w_checkpoint_gt = normalize_since since\<rparr>) store)\<rparr>"
  using store_find_ids[of mn rcs "normalize_since since" store]
  by (simp add: diff_unfold store_find_def diff_loop_result)

lemma map_filter_set:
  "set (List.map_filter f xs) = {y. \<exists>x \<in> set xs. f x = Some y}"
  by (induction xs) (auto split: option.splits)

lemma length_map_filter_plus:
  "(\<And>x. f x \<noteq> None \<Longrightarrow> \<not> P x) \<Longrightarrow>
   length (List.map_filter f xs) + length (filter P xs) \<le> length xs"
  by (induction xs) (auto split: option.splits)

lemma delta_not_conflict: "delta_of rcs l \<noteq> None \<Longrightarrow> \<not> is_conflict rcs l"
  by (auto simp: delta_of_def is_conflict_def split: option.splits if_splits)

lemma delta_of_modelId: "delta_of rcs l = Some d \<Longrightarrow> modelId d = modelId l"
  by (auto simp: delta_of_def split: option.splits if_splits dest: remote_for_modelId)

lemma map_filter_cong_set:
  "(\<And>x. x \<in> set xs \<Longrightarrow> f x = g x) \<Longrightarrow> List.map_filter f xs = List.map_filter g xs"
proof (induction xs)
  case Nil
  show ?case by simp
next
  case (Cons a xs)
  have tl: "List.map_filter f xs = List.map_filter g xs"
    using Cons by simp
  have hd: "f a = g a"
    using Cons.prems by simp
  show ?case
    by (simp only: map_filter_simps tl hd)
qed

lemma remote_for_last_duplicate:
  "m \<in> modelId ` set rcs \<Longrightarrow> remote_for rcs m = Some (last_duplicate rcs m)"
proof -
  assume "m \<in> modelId ` set rcs"
  then have "filter (\<lambda>ch. modelId ch = m) rcs \<noteq> []"
    by (auto simp: filter_empty_conv)
  then show ?thesis
    by (simp add: remote_for_last last_duplicate_def)
qed

subsection \<open>Errors handed to the undefined handler\<close>

lemma track_task_findOrCreate_error:
  "fst (findOrCreate E s mn mid) = Inl err \<Longrightarrow> fst (track_task E mn mid s) = Inl TypeError"
  by (cases "findOrCreate E s mn mid") (auto simp: track_task_def handleError_def)

lemma currentRevision_accessor_error:
  "models E (modelName c) = Some model \<Longrightarrow> model s (modelId c) = Inl err \<Longrightarrow>
   currentRevision E s c = Inl TypeError"
  by (simp add: currentRevision_def getModelCtor_def handleError_def)

lemma rectify_accessor_error:
  "models E (modelName c) = Some model \<Longrightarrow> model s (modelId c) = Inl err \<Longrightarrow>
   rectify E s c = (Inl TypeError, s)"
  using currentRevision_accessor_error[of E "c\<lparr>prev := rev' c\<rparr>" model s err]
  by (simp add: rectify_def handleError_def)

lemmas example_defs =
  example_env_def example_change_def track_def parallel_def track_task_def findOrCreate_def
  rectify_def currentRevision_def getModelCtor_def revisionForInst_def handleError_def
  idForModel_def

section \<open>Properties\<close>

text \<open>
  C1. Whenever the store answers the query of \<open>diff\<close> with records whose ids are
  among the remote ids, each of them is compared with the remote record indexed under
  its \<open>modelId\<close>: equal revisions put nothing in either list; unequal revisions with
  \<open>remote.prev = local.rev\<close> append the remote record to \<open>deltas\<close>; every other
  pair appends the local record to \<open>conflicts\<close>. Both lists keep the order of the
  local records.
\<close>

theorem diff_classifies_each_local:
  assumes "find_changes \<lparr>w_modelName = mn, w_modelId_inq = map modelId rcs,
                          w_checkpoint_gt = normalize_since since\<rparr> = Inr locals"
      and "\<forall>l \<in> set locals. modelId l \<in> modelId ` set rcs"
  shows "diff mn since rcs find_changes =
           Inr \<lparr>deltas = List.map_filter (delta_of rcs) locals,
                conflicts = filter (is_conflict rcs) locals\<rparr>"
  using assms by (simp add: diff_unfold diff_loop_result)

theorem diff_classifies_witness:
  "diff ''Todo'' (Some 0)
     [example_change ''1'' (Str ''B'') (Str ''A'') None,
      example_change ''2'' (Str ''B'') (Str ''C'') None,
      example_change ''3'' (Str ''A'') (Str ''C'') None]
     (store_find
        [example_change ''1'' (Str ''A'') (Str ''X'') (Some 5),
         example_change ''2'' (Str ''A'') (Str ''X'') (Some 5),
         example_change ''3'' (Str ''A'') (Str ''X'') (Some 5)]) =
   Inr \<lparr>deltas = [example_change ''1'' (Str ''B'') (Str ''A'') None],
        conflicts = [example_change ''2'' (Str ''A'') (Str ''X'') (Some 5)]\<rparr>"
proof -
  let ?rcs = "[example_change ''1'' (Str ''B'') (Str ''A'') None,
      example_change ''2'' (Str ''B'') (Str ''C'') None,
      example_change ''3'' (Str ''A'') (Str ''C'') None]"
  let ?store = "[example_change ''1'' (Str ''A'') (Str ''X'') (Some 5),
         example_change ''2'' (Str ''A'') (Str ''X'') (Some 5),
         example_change ''3'' (Str ''A'') (Str ''X'') (Some 5)]"
  have h1: "store_find ?store \<lparr>w_modelName = ''Todo'', w_modelId_inq = map modelId ?rcs,
              w_checkpoint_gt = normalize_since (Some 0)\<rparr> = Inr ?store"
    by (simp add: store_find_def matches_def normalize_since_def example_change_def)
  have h2: "\<forall>l \<in> set ?store. modelId l \<in> modelId ` set ?rcs"
    by (simp add: example_change_def)
  show ?thesis
    using diff_classifies_each_local[where find_changes = "store_find ?store", OF h1 h2]
    by (simp add: delta_of_def is_conflict_def remote_for_def example_change_def)
qed

text \<open>
  C2. Against a store that evaluates the filter, \<open>diff\<close> with the checkpoint \<open>n\<close>
  runs its comparison over exactly the stored records whose \<open>modelName\<close> is the
  given one, whose \<open>modelId\<close> is the id of some remote change and whose checkpoint
  is strictly greater than \<open>n\<close>. A stored record whose checkpoint is \<open>n\<close> or less
  changes nothing in the result, whatever its revisions are.
\<close>

theorem diff_compares_only_matching_locals:
  "diff mn (Some n) rcs (store_find store) =
     diff_loop (snd (index_remote rcs))
       (filter (\<lambda>c. modelName c = mn \<and> modelId c \<in> modelId ` set rcs \<and>
                     (case checkpoint c of None \<Rightarrow> False | Some k \<Rightarrow> k > n)) store)
       \<lparr>deltas = [], conflicts = []\<rparr> \<and>
   (checkpoint c = Some k \<and> k \<le> n \<longrightarrow>
      diff mn (Some n) rcs (store_find (xs @ c # ys)) = diff mn (Some n) rcs (store_find (xs @ ys)))"
proof -
  have n: "normalize_since (Some n) = n" by (simp add: normalize_since_def)
  have m: "matches \<lparr>w_modelName = mn, w_modelId_inq = map modelId rcs, w_checkpoint_gt = n\<rparr> =
        (\<lambda>c. modelName c = mn \<and> modelId c \<in> modelId ` set rcs \<and>
                     (case checkpoint c of None \<Rightarrow> False | Some k \<Rightarrow> k > n))"
    by (rule ext) (simp add: matches_def split: option.splits)
  have a: "diff mn (Some n) rcs (store_find store) =
     diff_loop (snd (index_remote rcs))
       (filter (\<lambda>c. modelName c = mn \<and> modelId c \<in> modelId ` set rcs \<and>
                     (case checkpoint c of None \<Rightarrow> False | Some k \<Rightarrow> k > n)) store)
       \<lparr>deltas = [], conflicts = []\<rparr>"
    by (simp add: diff_unfold store_find_def n m index_remote_lookup)
  have b: "checkpoint c = Some k \<and> k \<le> n \<longrightarrow>
      diff mn (Some n) rcs (store_find (xs @ c # ys)) = diff mn (Some n) rcs (store_find (xs @ ys))"
    by (simp add: diff_unfold store_find_def n matches_def)
  from a b show ?thesis by simp
qed

theorem diff_checkpoint_filter_witness:
  "diff ''Todo'' (Some 5) [example_change ''1'' (Str ''B'') (Str ''C'') None]
     (store_find [example_change ''1'' (Str ''A'') (Str ''X'') (Some 5)]) =
   Inr \<lparr>deltas = [], conflicts = []\<rparr> \<and>
   diff ''Todo'' (Some 4) [example_change ''1'' (Str ''B'') (Str ''C'') None]
     (store_find [example_change ''1'' (Str ''A'') (Str ''X'') (Some 5)]) =
   Inr \<lparr>deltas = [], conflicts = [example_change ''1'' (Str ''A'') (Str ''X'') (Some 5)]\<rparr>"
  using diff_compares_only_matching_locals[where mn = "''Todo''" and n = 5
      and rcs = "[example_change ''1'' (Str ''B'') (Str ''C'') None]" and store = "[]"
      and c = "example_change ''1'' (Str ''A'') (Str ''X'') (Some 5)" and k = 5
      and xs = "[]" and ys = "[]"]
    diff_compares_only_matching_locals[where mn = "''Todo''" and n = 4
      and rcs = "[example_change ''1'' (Str ''B'') (Str ''C'') None]"
      and store = "[example_change ''1'' (Str ''A'') (Str ''X'') (Some 5)]"
      and c = "example_change ''1'' (Str ''A'') (Str ''X'') (Some 3)" and k = 3
      and xs = "[]" and ys = "[]"]
  by (simp add: example_change_def index_remote_def index_step_def equals_def isBasedOn_def)

text \<open>
  C3. \<open>isBasedOn remote local\<close> is true exactly when \<open>remote.prev\<close> equals
  \<open>local.rev\<close>.
\<close>

theorem isBasedOn_iff_prev_is_rev:
  "isBasedOn remote local = (prev remote = rev' local)"
  by (simp add: isBasedOn_def)

text \<open>
  C4. The batch of Scenario D: \<open>track\<close> for the ids \<open>1\<close>, \<open>2\<close>, \<open>3\<close> of the model
  \<open>Todo\<close>, where the entity accessor fails with the store error \<open>down\<close> while the
  change of id \<open>2\<close> is rectified. The task of id \<open>2\<close> hands the error to
  \<open>Change.handleError\<close>, which is not defined: the task and the batch end in the
  TypeError of that call, and the store error \<open>down\<close> is not what \<open>track\<close> returns.
\<close>

theorem track_store_error_is_lost:
  "(case models example_env ''Todo'' of
      None \<Rightarrow> Inl TypeError
    | Some model \<Rightarrow> model [] ''2'') = Inl (StoreError ''down'') \<and>
   fst (track_task example_env ''Todo'' ''2'' []) = Inl TypeError \<and>
   fst (track example_env ''Todo'' [''1'', ''2'', ''3''] []) = Inl TypeError \<and>
   fst (track example_env ''Todo'' [''1'', ''2'', ''3''] []) \<noteq> Inl (StoreError ''down'')"
  by (simp add: example_defs)

text \<open>
  C5 (amended). \<open>type\<close> tests \<open>rev\<close> and \<open>prev\<close> for truthiness, and a value is
  truthy unless it is null, undefined or the empty string: UPDATE when both are truthy,
  CREATE when only \<open>rev\<close> is, DELETE when only \<open>prev\<close> is, UNKNOWN when neither is.
\<close>

theorem type_by_truthiness:
  "type' c =
     (if truthy (rev' c) then (if truthy (prev c) then UPDATE else CREATE)
      else (if truthy (prev c) then DELETE else UNKNOWN)) \<and>
   truthy v = (v \<noteq> Null \<and> v \<noteq> Undefined \<and> v \<noteq> Str [])"
  by (cases v) (simp_all add: type'_def)

text \<open>
  A record whose \<open>rev\<close> is the empty string and whose \<open>prev\<close> is \<open>A\<close>: both are
  non-null, and \<open>type\<close> answers DELETE, not UPDATE.
\<close>

theorem type_empty_rev_counterexample:
  "rev' \<lparr>rev' = Str [], prev = Str ''A'', checkpoint = Some 1,
         modelName = ''Todo'', modelId = ''1''\<rparr> \<noteq> Null \<and>
   prev \<lparr>rev' = Str [], prev = Str ''A'', checkpoint = Some 1,
         modelName = ''Todo'', modelId = ''1''\<rparr> \<noteq> Null \<and>
   type' \<lparr>rev' = Str [], prev = Str ''A'', checkpoint = Some 1,
          modelName = ''Todo'', modelId = ''1''\<rparr> = DELETE"
  by (simp add: type'_def)

text \<open>
  C6. For a change whose model is registered, \<open>rectify\<close> moves the old \<open>rev\<close>
  into \<open>prev\<close> and saves the record with \<open>rev\<close> set to the digest of the
  canonical serialization of the entity when the accessor finds one, and to null when
  it finds none. In the second case the current revision is the successful result
  null, not an error: what \<open>rectify\<close> returns is what saving that record returns.
\<close>

theorem rectify_shifts_prev_sets_rev:
  "models E (modelName c) = Some model \<longrightarrow>
     (model s (modelId c) = Inr (Some inst) \<longrightarrow>
        currentRevision E s (c\<lparr>prev := rev' c\<rparr>) = Inr (Str (hash E (stringify E inst))) \<and>
        rectify E s c = save E s (c\<lparr>prev := rev' c, rev' := Str (hash E (stringify E inst))\<rparr>)) \<and>
     (model s (modelId c) = Inr None \<longrightarrow>
        currentRevision E s (c\<lparr>prev := rev' c\<rparr>) = Inr Null \<and>
        rectify E s c = save E s (c\<lparr>prev := rev' c, rev' := Null\<rparr>))"
  by (simp add: rectify_def currentRevision_def getModelCtor_def revisionForInst_def)

theorem rectify_witness:
  "rectify example_env [] (example_change ''1'' (Str ''A'') (Str ''X'') (Some 5)) =
     (Inr (example_change ''1'' (Str ''#{}'') (Str ''A'') (Some 5)),
      [example_change ''1'' (Str ''#{}'') (Str ''A'') (Some 5)]) \<and>
   rectify example_env [] (example_change ''3'' (Str ''A'') (Str ''X'') (Some 5)) =
     (Inr (example_change ''3'' Null (Str ''A'') (Some 5)),
      [example_change ''3'' Null (Str ''A'') (Some 5)])"
  using rectify_shifts_prev_sets_rev[of example_env
      "example_change ''1'' (Str ''A'') (Str ''X'') (Some 5)"
      "\<lambda>s mid. if mid = ''2'' then Inl (StoreError ''down'')
                else if mid = ''3'' then Inr None else Inr (Some ''{}'')"
      "[]" "''{}''"]
    rectify_shifts_prev_sets_rev[of example_env
      "example_change ''3'' (Str ''A'') (Str ''X'') (Some 5)"
      "\<lambda>s mid. if mid = ''2'' then Inl (StoreError ''down'')
                else if mid = ''3'' then Inr None else Inr (Some ''{}'')"
      "[]" "''{}''"]
  by (simp add: example_env_def example_change_def)

text \<open>
  C7 (amended). \<open>idForModel\<close> is the digest of \<open>modelName + "-" + modelId\<close> and equal
  pairs have equal ids. Two distinct pairs whose model names contain no \<open>-\<close> have
  distinct ids wherever the digest does not collide on their two joined strings.
\<close>

theorem idForModel_hash_of_join:
  "idForModel H mn mid = H (mn @ ''-'' @ mid) \<and>
   (mn = mn' \<and> mid = mid' \<longrightarrow> idForModel H mn mid = idForModel H mn' mid') \<and>
   (CHR ''-'' \<notin> set mn \<and> CHR ''-'' \<notin> set mn' \<and> (mn, mid) \<noteq> (mn', mid') \<and>
      inj_on H {mn @ ''-'' @ mid, mn' @ ''-'' @ mid'}
    \<longrightarrow> idForModel H mn mid \<noteq> idForModel H mn' mid')"
  using dash_split[of mn mn' mid mid'] by (auto simp: idForModel_def inj_on_def)

theorem idForModel_witness:
  "idForModel (hash example_env) ''Todo'' ''1'' = ''#Todo-1'' \<and>
   idForModel (hash example_env) ''Todo'' ''1'' \<noteq> idForModel (hash example_env) ''Todo'' ''2''"
  using idForModel_hash_of_join[of "hash example_env" "''Todo''" "''1''" "''Todo''" "''2''"]
  by (simp add: example_env_def inj_on_def idForModel_def)

text \<open>
  The pairs \<open>("a-b", "c")\<close> and \<open>("a", "b-c")\<close> are distinct and join to the same
  string, so they have the same id under every digest.
\<close>

theorem idForModel_not_injective_counterexample:
  "\<forall>H. (''a-b'', ''c'') \<noteq> (''a'', ''b-c'') \<and>
        idForModel H ''a-b'' ''c'' = idForModel H ''a'' ''b-c''"
  by (simp add: idForModel_def)

text \<open>
  C8. \<open>equals a b\<close> is true exactly when the two \<open>rev\<close>s are equal, and replacing
  \<open>prev\<close> and \<open>checkpoint\<close> of either record by anything leaves it unchanged.
\<close>

theorem equals_depends_only_on_rev:
  "equals a b = (rev' a = rev' b) \<and>
   equals (a\<lparr>prev := p, checkpoint := k\<rparr>) (b\<lparr>prev := p', checkpoint := k'\<rparr>) = equals a b"
  by (auto simp: equals_def)

text \<open>
  C9. When the store holds at most one change record for each pair of
  \<open>modelName\<close> and \<open>modelId\<close>, no \<open>modelId\<close> occurs both in the \<open>deltas\<close> and in
  the \<open>conflicts\<close> of one result of \<open>diff\<close>, and the two lists together are no
  longer than the store: a local record lands in at most one of them.
\<close>

theorem diff_one_disposition_per_entity:
  assumes "distinct (map (\<lambda>c. (modelName c, modelId c)) store)"
      and "diff mn since rcs (store_find store) = Inr r"
  shows "modelId ` set (deltas r) \<inter> modelId ` set (conflicts r) = {} \<and>
         length (deltas r) + length (conflicts r) \<le> length store"
proof -
  let ?w = "\<lparr>w_modelName = mn, w_modelId_inq = map modelId rcs,
              w_checkpoint_gt = normalize_since since\<rparr>"
  let ?locals = "filter (matches ?w) store"
  from assms(2) have d: "deltas r = List.map_filter (delta_of rcs) ?locals"
    and c: "conflicts r = filter (is_conflict rcs) ?locals"
    by (auto simp: diff_store)
  have inj: "l1 = l2"
    if "l1 \<in> set ?locals" "l2 \<in> set ?locals" "modelId l1 = modelId l2" for l1 l2
  proof -
    from that have "l1 \<in> set store" "l2 \<in> set store" "modelName l1 = modelName l2"
      by (auto simp: matches_def)
    with assms(1) that(3) show ?thesis
      by (auto simp: distinct_map inj_on_def)
  qed
  have "modelId ` set (deltas r) \<inter> modelId ` set (conflicts r) = {}"
  proof (rule ccontr)
    assume "modelId ` set (deltas r) \<inter> modelId ` set (conflicts r) \<noteq> {}"
    then obtain dl cl where dl: "dl \<in> set (deltas r)" and cl: "cl \<in> set (conflicts r)"
      and e: "modelId dl = modelId cl" by auto
    from dl d obtain l where l: "l \<in> set ?locals" "delta_of rcs l = Some dl"
      by (auto simp: map_filter_set)
    from cl c have cl': "cl \<in> set ?locals" "is_conflict rcs cl" by auto
    from l(2) e have "modelId l = modelId cl" by (simp add: delta_of_modelId)
    with l(1) cl'(1) have "l = cl" by (rule inj)
    with l(2) cl'(2) show False using delta_not_conflict[of rcs l] by simp
  qed
  moreover have "length (deltas r) + length (conflicts r) \<le> length ?locals"
    unfolding d c by (rule length_map_filter_plus) (rule delta_not_conflict)
  ultimately show ?thesis
    using length_filter_le[of "matches ?w" store] by linarith
qed

theorem diff_one_disposition_witness:
  "modelId ` set [example_change ''1'' (Str ''B'') (Str ''A'') None] \<inter>
   modelId ` set [example_change ''2'' (Str ''A'') (Str ''X'') (Some 5)] = {} \<and>
   length [example_change ''1'' (Str ''B'') (Str ''A'') None] +
   length [example_change ''2'' (Str ''A'') (Str ''X'') (Some 5)] \<le> (3::nat)"
proof -
  let ?rcs = "[example_change ''1'' (Str ''B'') (Str ''A'') None,
      example_change ''2'' (Str ''B'') (Str ''C'') None,
      example_change ''3'' (Str ''A'') (Str ''C'') None]"
  let ?store = "[example_change ''1'' (Str ''A'') (Str ''X'') (Some 5),
         example_change ''2'' (Str ''A'') (Str ''X'') (Some 5),
         example_change ''3'' (Str ''A'') (Str ''X'') (Some 5)]"
  have h1: "distinct (map (\<lambda>c. (modelName c, modelId c)) ?store)"
    by (simp add: example_change_def)
  have h2: "diff ''Todo'' (Some 0) ?rcs (store_find ?store) =
     Inr \<lparr>deltas = [example_change ''1'' (Str ''B'') (Str ''A'') None],
          conflicts = [example_change ''2'' (Str ''A'') (Str ''X'') (Some 5)]\<rparr>"
    by (simp add: diff_def index_remote_def index_step_def store_find_def matches_def
          normalize_since_def equals_def isBasedOn_def example_change_def)
  show ?thesis
    using diff_one_disposition_per_entity[OF h1 h2] by simp
qed

text \<open>
  C10. The id list of the query holds the \<open>modelId\<close> of every remote change, one per
  occurrence, while the index holds for each id the last remote change of the list
  with it. Whenever the store answers the query with records whose ids are among the
  remote ids, each local record is classified by the \<open>rev\<close> and \<open>prev\<close> of the
  last remote change with its \<open>modelId\<close>, and that last remote change is what
  \<open>deltas\<close> receives; the earlier duplicates play no part. So a remote change that
  is followed by another one with the same \<open>modelId\<close> can be replaced by any record
  with that \<open>modelId\<close> without changing the result.
\<close>

theorem remote_index_last_wins:
  "fst (index_remote rcs) = map modelId rcs \<and>
   snd (index_remote rcs) m =
     (if filter (\<lambda>ch. modelId ch = m) rcs = [] then None
      else Some (last (filter (\<lambda>ch. modelId ch = m) rcs))) \<and>
   (find_changes \<lparr>w_modelName = mn, w_modelId_inq = map modelId rcs,
                   w_checkpoint_gt = normalize_since since\<rparr> = Inr locals \<and>
    (\<forall>l \<in> set locals. modelId l \<in> modelId ` set rcs) \<longrightarrow>
      diff mn since rcs find_changes =
        Inr \<lparr>deltas = List.map_filter
               (\<lambda>l. if rev' (last_duplicate rcs (modelId l)) \<noteq> rev' l \<and>
                        prev (last_duplicate rcs (modelId l)) = rev' l
                     then Some (last_duplicate rcs (modelId l)) else None) locals,
             conflicts = filter
               (\<lambda>l. rev' (last_duplicate rcs (modelId l)) \<noteq> rev' l \<and>
                     prev (last_duplicate rcs (modelId l)) \<noteq> rev' l) locals\<rparr>) \<and>
   (modelId c = modelId c' \<and> modelId c \<in> modelId ` set ys \<longrightarrow>
      diff mn since (xs @ c # ys) find_changes = diff mn since (xs @ c' # ys) find_changes)"
proof -
  have overwritten:
    "modelId c = modelId c' \<and> modelId c \<in> modelId ` set ys \<longrightarrow>
       diff mn since (xs @ c # ys) find_changes = diff mn since (xs @ c' # ys) find_changes"
  proof
    assume h: "modelId c = modelId c' \<and> modelId c \<in> modelId ` set ys"
    then have h1: "modelId c = modelId c'" and h2: "modelId c \<in> modelId ` set ys"
      by blast+
    have "remote_for (xs @ c # ys) = remote_for (xs @ c' # ys)"
      using h1 h2 by (rule remote_for_overwritten)
    with h1 have "index_remote (xs @ c # ys) = index_remote (xs @ c' # ys)"
      by (simp add: prod_eq_iff index_remote_ids index_remote_lookup)
    then show "diff mn since (xs @ c # ys) find_changes = diff mn since (xs @ c' # ys) find_changes"
      by (simp add: diff_def)
  qed
  have lookup: "snd (index_remote rcs) m =
     (if filter (\<lambda>ch. modelId ch = m) rcs = [] then None
      else Some (last (filter (\<lambda>ch. modelId ch = m) rcs)))"
    by (simp only: index_remote_lookup remote_for_last)
  let ?d = "\<lambda>l. if rev' (last_duplicate rcs (modelId l)) \<noteq> rev' l \<and>
                     prev (last_duplicate rcs (modelId l)) = rev' l
                  then Some (last_duplicate rcs (modelId l)) else None"
  let ?c = "\<lambda>l. rev' (last_duplicate rcs (modelId l)) \<noteq> rev' l \<and>
                  prev (last_duplicate rcs (modelId l)) \<noteq> rev' l"
  have outcome:
    "find_changes \<lparr>w_modelName = mn, w_modelId_inq = map modelId rcs,
                    w_checkpoint_gt = normalize_since since\<rparr> = Inr locals \<and>
     (\<forall>l \<in> set locals. modelId l \<in> modelId ` set rcs) \<longrightarrow>
       diff mn since rcs find_changes =
         Inr \<lparr>deltas = List.map_filter ?d locals, conflicts = filter ?c locals\<rparr>"
  proof
    assume h: "find_changes \<lparr>w_modelName = mn, w_modelId_inq = map modelId rcs,
                    w_checkpoint_gt = normalize_since since\<rparr> = Inr locals \<and>
               (\<forall>l \<in> set locals. modelId l \<in> modelId ` set rcs)"
    then have f: "find_changes \<lparr>w_modelName = mn, w_modelId_inq = map modelId rcs,
                    w_checkpoint_gt = normalize_since since\<rparr> = Inr locals"
      and ids: "\<forall>l \<in> set locals. modelId l \<in> modelId ` set rcs"
      by blast+
    have d: "List.map_filter (delta_of rcs) locals = List.map_filter ?d locals"
    proof (rule map_filter_cong_set)
      fix l assume "l \<in> set locals"
      with ids have "remote_for rcs (modelId l) = Some (last_duplicate rcs (modelId l))"
        by (simp add: remote_for_last_duplicate)
      then show "delta_of rcs l = ?d l" by (simp add: delta_of_def)
    qed
    have c: "filter (is_conflict rcs) locals = filter ?c locals"
    proof (rule filter_cong[OF refl])
      fix l assume "l \<in> set locals"
      with ids have "remote_for rcs (modelId l) = Some (last_duplicate rcs (modelId l))"
        by (simp add: remote_for_last_duplicate)
      then show "is_conflict rcs l = ?c l" by (simp add: is_conflict_def)
    qed
    have "diff mn since rcs find_changes =
            Inr \<lparr>deltas = List.map_filter (delta_of rcs) locals,
                 conflicts = filter (is_conflict rcs) locals\<rparr>"
      using f ids by (simp add: diff_unfold diff_loop_result)
    then show "diff mn since rcs find_changes =
         Inr \<lparr>deltas = List.map_filter ?d locals, conflicts = filter ?c locals\<rparr>"
      by (simp only: d c)
  qed
  from overwritten lookup outcome index_remote_ids[of rcs] show ?thesis
    by blast
qed

theorem remote_index_witness:
  "fst (index_remote [example_change ''1'' (Str ''B'') (Str ''C'') None,
                      example_change ''1'' (Str ''B'') (Str ''A'') None]) = [''1'', ''1''] \<and>
   snd (index_remote [example_change ''1'' (Str ''B'') (Str ''C'') None,
                      example_change ''1'' (Str ''B'') (Str ''A'') None]) ''1'' =
     Some (example_change ''1'' (Str ''B'') (Str ''A'') None) \<and>
   diff ''Todo'' (Some 0)
     [example_change ''1'' (Str ''B'') (Str ''C'') None,
      example_change ''1'' (Str ''B'') (Str ''A'') None]
     (store_find [example_change ''1'' (Str ''A'') (Str ''X'') (Some 5)]) =
   Inr \<lparr>deltas = [example_change ''1'' (Str ''B'') (Str ''A'') None], conflicts = []\<rparr> \<and>
   diff ''Todo'' (Some 0)
     [example_change ''1'' (Str ''B'') (Str ''A'') None,
      example_change ''1'' (Str ''B'') (Str ''C'') None]
     (store_find [example_change ''1'' (Str ''A'') (Str ''X'') (Some 5)]) =
   Inr \<lparr>deltas = [], conflicts = [example_change ''1'' (Str ''A'') (Str ''X'') (Some 5)]\<rparr> \<and>
   diff ''Todo'' (Some 0)
     [example_change ''1'' (Str ''Z'') (Str ''Y'') None,
      example_change ''1'' (Str ''B'') (Str ''A'') None]
     (store_find [example_change ''1'' (Str ''A'') (Str ''X'') (Some 5)]) =
   Inr \<lparr>deltas = [example_change ''1'' (Str ''B'') (Str ''A'') None], conflicts = []\<rparr>"
proof -
  let ?first = "example_change ''1'' (Str ''B'') (Str ''C'') None"
  let ?last = "example_change ''1'' (Str ''B'') (Str ''A'') None"
  let ?other = "example_change ''1'' (Str ''Z'') (Str ''Y'') None"
  let ?local = "example_change ''1'' (Str ''A'') (Str ''X'') (Some 5)"
  let ?f = "store_find [?local]"
  have ids: "fst (index_remote [?first, ?last]) = [''1'', ''1'']"
    using remote_index_last_wins[where rcs = "[?first, ?last]"]
    by (simp add: example_change_def)
  have idx: "snd (index_remote [?first, ?last]) ''1'' = Some ?last"
    using remote_index_last_wins[where rcs = "[?first, ?last]" and m = "''1''"]
    by (simp add: example_change_def)
  have q1: "?f \<lparr>w_modelName = ''Todo'', w_modelId_inq = map modelId [?first, ?last],
              w_checkpoint_gt = normalize_since (Some 0)\<rparr> = Inr [?local] \<and>
            (\<forall>l \<in> set [?local]. modelId l \<in> modelId ` set [?first, ?last])"
    by (simp add: store_find_def matches_def normalize_since_def example_change_def)
  have q2: "?f \<lparr>w_modelName = ''Todo'', w_modelId_inq = map modelId [?last, ?first],
              w_checkpoint_gt = normalize_since (Some 0)\<rparr> = Inr [?local] \<and>
            (\<forall>l \<in> set [?local]. modelId l \<in> modelId ` set [?last, ?first])"
    by (simp add: store_find_def matches_def normalize_since_def example_change_def)
  have r1: "diff ''Todo'' (Some 0) [?first, ?last] ?f =
            Inr \<lparr>deltas = [?last], conflicts = []\<rparr>"
  proof -
    have "diff ''Todo'' (Some 0) [?first, ?last] ?f =
        Inr \<lparr>deltas = List.map_filter
               (\<lambda>l. if rev' (last_duplicate [?first, ?last] (modelId l)) \<noteq> rev' l \<and>
                        prev (last_duplicate [?first, ?last] (modelId l)) = rev' l
                     then Some (last_duplicate [?first, ?last] (modelId l)) else None) [?local],
             conflicts = filter
               (\<lambda>l. rev' (last_duplicate [?first, ?last] (modelId l)) \<noteq> rev' l \<and>
                     prev (last_duplicate [?first, ?last] (modelId l)) \<noteq> rev' l) [?local]\<rparr>"
      using q1 remote_index_last_wins[where rcs = "[?first, ?last]" and find_changes = ?f
          and mn = "''Todo''" and since = "Some 0" and locals = "[?local]"]
      by blast
    then show ?thesis by (simp add: last_duplicate_def example_change_def)
  qed
  have r2: "diff ''Todo'' (Some 0) [?last, ?first] ?f =
            Inr \<lparr>deltas = [], conflicts = [?local]\<rparr>"
  proof -
    have "diff ''Todo'' (Some 0) [?last, ?first] ?f =
        Inr \<lparr>deltas = List.map_filter
               (\<lambda>l. if rev' (last_duplicate [?last, ?first] (modelId l)) \<noteq> rev' l \<and>
                        prev (last_duplicate [?last, ?first] (modelId l)) = rev' l
                     then Some (last_duplicate [?last, ?first] (modelId l)) else None) [?local],
             conflicts = filter
               (\<lambda>l. rev' (last_duplicate [?last, ?first] (modelId l)) \<noteq> rev' l \<and>
                     prev (last_duplicate [?last, ?first] (modelId l)) \<noteq> rev' l) [?local]\<rparr>"
      using q2 remote_index_last_wins[where rcs = "[?last, ?first]" and find_changes = ?f
          and mn = "''Todo''" and since = "Some 0" and locals = "[?local]"]
      by blast
    then show ?thesis by (simp add: last_duplicate_def example_change_def)
  qed
  have h: "modelId ?first = modelId ?other \<and> modelId ?first \<in> modelId ` set [?last]"
    by (simp add: example_change_def)
  have "diff ''Todo'' (Some 0) ([] @ ?first # [?last]) ?f =
        diff ''Todo'' (Some 0) ([] @ ?other # [?last]) ?f"
    using h remote_index_last_wins[where c = ?first and c' = ?other and ys = "[?last]"
        and xs = "[]" and mn = "''Todo''" and since = "Some 0" and find_changes = ?f]
    by blast
  with r1 have r3: "diff ''Todo'' (Some 0) [?other, ?last] ?f =
            Inr \<lparr>deltas = [?last], conflicts = []\<rparr>"
    by simp
  from ids idx r1 r2 r3 show ?thesis by blast
qed

end
